theory Spec2Isabelle
  imports Complex_Main
begin

section \<open>JavaScript values used by the elements\<close>

text \<open>
  The setters of the elements accept any value and coerce it with \<open>Boolean(value)\<close>;
  the listbox compares an option's value against the requested one with \<open>==\<close>.
  The primitive values are modelled: undefined, null, booleans, numbers and strings
  (objects, symbols and big integers are left out).
  A number is NaN, an infinity or a finite rational (the two zeros are identified:
  they are equal under \<open>==\<close> and both falsy).
\<close>

datatype jsnum = NaN | PosInf | NegInf | Fin rat

datatype jsval = JUndefined | JNull | JBool bool | JNum jsnum | JStr string

datatype js_error = TypeError

text \<open>\<open>Boolean(value)\<close>: the falsy values are undefined, null, false, 0, NaN and the empty string.\<close>

fun Boolean :: "jsval \<Rightarrow> bool" where
  "Boolean JUndefined = False"
| "Boolean JNull = False"
| "Boolean (JBool b) = b"
| "Boolean (JNum n) = (n \<noteq> NaN \<and> n \<noteq> Fin 0)"
| "Boolean (JStr s) = (s \<noteq> [])"

text \<open>Equality of two numbers: NaN is equal to nothing, itself included.\<close>

definition num_eq :: "jsnum \<Rightarrow> jsnum \<Rightarrow> bool" where
  "num_eq a b = (a \<noteq> NaN \<and> a = b)"

definition bool_to_number :: "bool \<Rightarrow> jsnum" where
  "bool_to_number b = Fin (if b then 1 else 0)"

text \<open>
  The loose equality \<open>x == y\<close> on primitive values. Values of one type are compared
  directly, null and undefined are equal to each other and to nothing else, a boolean is
  converted to a number, and a string compared with a number is converted to a number.
  The conversion of a string to a number is the language's built-in; it is the
  parameter \<open>tn\<close>, and every theorem below holds for each such conversion.
\<close>

fun loose_eq :: "(string \<Rightarrow> jsnum) \<Rightarrow> jsval \<Rightarrow> jsval \<Rightarrow> bool" where
  "loose_eq tn JUndefined y = (y = JUndefined \<or> y = JNull)"
| "loose_eq tn JNull y = (y = JUndefined \<or> y = JNull)"
| "loose_eq tn (JNum a) (JNum b) = num_eq a b"
| "loose_eq tn (JNum a) (JStr t) = num_eq a (tn t)"
| "loose_eq tn (JNum a) (JBool b) = num_eq a (bool_to_number b)"
| "loose_eq tn (JNum a) y = False"
| "loose_eq tn (JStr s) (JStr t) = (s = t)"
| "loose_eq tn (JStr s) (JNum b) = num_eq (tn s) b"
| "loose_eq tn (JStr s) (JBool b) = num_eq (tn s) (bool_to_number b)"
| "loose_eq tn (JStr s) y = False"
| "loose_eq tn (JBool a) (JBool b) = (a = b)"
| "loose_eq tn (JBool a) (JNum b) = num_eq (bool_to_number a) b"
| "loose_eq tn (JBool a) (JStr t) = num_eq (bool_to_number a) (tn t)"
| "loose_eq tn (JBool a) y = False"

text \<open>
  One conversion used to evaluate concrete inputs: the empty string is 0 and a string of
  decimal digits is the number it denotes, as in the language; the inputs evaluated
  below use no other string where a number is asked for.
\<close>

definition digit_value :: "char \<Rightarrow> nat option" where
  "digit_value c =
     (let code = (of_char c :: nat) in
      if 48 \<le> code \<and> code \<le> 57 then Some (code - 48) else None)"

fun digits_value :: "nat \<Rightarrow> string \<Rightarrow> nat option" where
  "digits_value acc [] = Some acc"
| "digits_value acc (c # cs) =
     (case digit_value c of None \<Rightarrow> None | Some d \<Rightarrow> digits_value (10 * acc + d) cs)"

definition digits_to_number :: "string \<Rightarrow> jsnum" where
  "digits_to_number s =
     (case digits_value 0 s of None \<Rightarrow> NaN | Some n \<Rightarrow> Fin (of_nat n))"

section \<open>Array helpers\<close>

text \<open>
  \<open>Array.prototype.find\<close> returns the first element that satisfies the predicate, or
  undefined. Elements are objects identified by reference; the model identifies an
  element of the array by its position, so \<open>find\<close> returns a position.
\<close>

fun find_pos :: "('a \<Rightarrow> bool) \<Rightarrow> 'a list \<Rightarrow> nat option" where
  "find_pos P [] = None"
| "find_pos P (x # xs) =
     (if P x then Some 0 else (case find_pos P xs of None \<Rightarrow> None | Some i \<Rightarrow> Some (Suc i)))"

text \<open>\<open>Array.prototype.findIndex\<close>: the position of that element, or \<open>-1\<close>.\<close>

definition findIndex :: "('a \<Rightarrow> bool) \<Rightarrow> 'a list \<Rightarrow> int" where
  "findIndex P xs = (case find_pos P xs of None \<Rightarrow> - 1 | Some i \<Rightarrow> int i)"

text \<open>
  The remainder \<open>a % b\<close> on integers: the result has the sign of the dividend, and the
  remainder by zero is NaN (\<open>None\<close>).
\<close>

definition js_rem :: "int \<Rightarrow> int \<Rightarrow> int option" where
  "js_rem a b = (if b = 0 then None else Some (sgn a * (\<bar>a\<bar> mod \<bar>b\<bar>)))"

text \<open>
  \<open>options[k]\<close>: the element at an integer position inside the array, undefined for a
  negative position, a position past the end, or NaN.
\<close>

definition at_index :: "'a list \<Rightarrow> int option \<Rightarrow> nat option" where
  "at_index xs k =
     (case k of None \<Rightarrow> None
      | Some i \<Rightarrow> if 0 \<le> i \<and> i < int (length xs) then Some (nat i) else None)"

section \<open>The option element\<close>

text \<open>
  A \<open>dash-option\<close> element with the attributes the code reads and writes. An absent
  attribute is \<open>None\<close>. \<open>opt_id\<close> is the \<open>id\<close> property.
\<close>

record dash_option =
  opt_id :: string
  value_attr :: "string option"
  selected_attr :: "string option"
  aria_selected :: "string option"

text \<open>
  The \<open>selected\<close> setter. Setting the attribute runs \<open>attributeChangedCallback\<close>, which
  writes \<open>aria-selected\<close>; removing an attribute that is absent changes nothing and runs
  no callback.
\<close>

definition set_selected :: "jsval \<Rightarrow> dash_option \<Rightarrow> dash_option" where
  "set_selected v el =
     (if Boolean v then el\<lparr>selected_attr := Some [], aria_selected := Some ''true''\<rparr>
      else if selected_attr el = None then el
      else el\<lparr>selected_attr := None, aria_selected := Some ''false''\<rparr>)"

definition get_selected :: "dash_option \<Rightarrow> bool" where
  "get_selected el = (selected_attr el \<noteq> None)"

text \<open>The \<open>value\<close> getter is \<open>getAttribute('value')\<close>: null when the attribute is absent.\<close>

definition get_value :: "dash_option \<Rightarrow> jsval" where
  "get_value el = (case value_attr el of None \<Rightarrow> JNull | Some s \<Rightarrow> JStr s)"

section \<open>The listbox element\<close>

text \<open>
  The listbox with its \<open>dash-option\<close> descendants in document order (what
  \<open>querySelectorAll('dash-option')\<close> returns), its \<open>aria-activedescendant\<close> attribute,
  and the \<open>detail.value\<close> of each \<open>input\<close> event dispatched so far.
\<close>

record dash_listbox =
  option_elements :: "dash_option list"
  aria_activedescendant :: "string option"
  input_events :: "jsval list"

definition allOptions :: "dash_listbox \<Rightarrow> dash_option list" where
  "allOptions lb = option_elements lb"

definition selectedOption :: "dash_listbox \<Rightarrow> nat option" where
  "selectedOption lb = find_pos get_selected (allOptions lb)"

definition prevOption :: "dash_listbox \<Rightarrow> nat option" where
  "prevOption lb =
     (let options = allOptions lb;
          newIdx = findIndex get_selected options - 1
      in at_index options (js_rem (newIdx + int (length options)) (int (length options))))"

definition nextOption :: "dash_listbox \<Rightarrow> nat option" where
  "nextOption lb =
     (let options = allOptions lb;
          newIdx = findIndex get_selected options + 1
      in at_index options (js_rem newIdx (int (length options))))"

definition firstOption :: "dash_listbox \<Rightarrow> nat option" where
  "firstOption lb = (let options = allOptions lb in at_index options (Some 0))"

definition lastOption :: "dash_listbox \<Rightarrow> nat option" where
  "lastOption lb =
     (let options = allOptions lb in at_index options (Some (int (length options) - 1)))"

definition reset :: "dash_listbox \<Rightarrow> dash_listbox" where
  "reset lb = lb\<lparr>option_elements := map (set_selected (JBool False)) (allOptions lb)\<rparr>"

text \<open>
  \<open>_selectOption(newOption)\<close>. The argument is an option of the listbox, given by
  its position, or undefined (\<open>None\<close>; a position outside the array is what
  \<open>options[k]\<close> gives there, undefined), as the \<open>value\<close> setter and the key handler
  pass it. Writing a property of undefined throws a TypeError, after the reset has been
  done. The result is the state left behind and the exception thrown, if any.
\<close>

definition selectOption :: "nat option \<Rightarrow> dash_listbox \<Rightarrow> dash_listbox \<times> js_error option" where
  "selectOption newOption lb =
     (let lb1 = reset lb in
      case newOption of
        None \<Rightarrow> (lb1, Some TypeError)
      | Some i \<Rightarrow>
          if i < length (allOptions lb1) then
            (let el = set_selected (JBool True) (allOptions lb1 ! i) in
             (lb1\<lparr>option_elements := (allOptions lb1)[i := el],
                  aria_activedescendant := Some (opt_id el)\<rparr>, None))
          else (lb1, Some TypeError))"

text \<open>The \<open>value\<close> setter and getter of the listbox.\<close>

definition set_value :: "(string \<Rightarrow> jsnum) \<Rightarrow> jsval \<Rightarrow> dash_listbox \<Rightarrow> dash_listbox \<times> js_error option" where
  "set_value tn val lb =
     (case find_pos (\<lambda>el. loose_eq tn (get_value el) val) (allOptions lb) of
        None \<Rightarrow> (reset lb, None)
      | Some newOption \<Rightarrow> selectOption (Some newOption) lb)"

definition get_lb_value :: "dash_listbox \<Rightarrow> jsval" where
  "get_lb_value lb =
     (case selectedOption lb of
        Some i \<Rightarrow> get_value (allOptions lb ! i)
      | None \<Rightarrow> JStr [])"

text \<open>\<open>_dispatch('input')\<close>: an event whose detail carries the current value.\<close>

definition dispatch_input :: "dash_listbox \<Rightarrow> dash_listbox" where
  "dispatch_input lb = lb\<lparr>input_events := input_events lb @ [get_lb_value lb]\<rparr>"

text \<open>
  \<open>_onFocus\<close>: \<open>this._selectedOption() || this._firstOption()\<close>, then the read of
  \<open>.id\<close>, which throws on undefined before anything is written or dispatched.
\<close>

definition onFocus :: "dash_listbox \<Rightarrow> dash_listbox \<times> js_error option" where
  "onFocus lb =
     (let selectedOpt = (case selectedOption lb of Some i \<Rightarrow> Some i | None \<Rightarrow> firstOption lb) in
      case selectedOpt of
        None \<Rightarrow> (lb, Some TypeError)
      | Some i \<Rightarrow>
          (dispatch_input (lb\<lparr>aria_activedescendant := Some (opt_id (allOptions lb ! i))\<rparr>), None))"

text \<open>The keyboard event: the fields the handler reads, and the flag \<open>preventDefault\<close> sets.\<close>

record key_event =
  altKey :: bool
  keyCode :: nat
  defaultPrevented :: bool

definition KEYCODE_UP :: nat where "KEYCODE_UP = 38"
definition KEYCODE_DOWN :: nat where "KEYCODE_DOWN = 40"
definition KEYCODE_LEFT :: nat where "KEYCODE_LEFT = 37"
definition KEYCODE_RIGHT :: nat where "KEYCODE_RIGHT = 39"
definition KEYCODE_HOME :: nat where "KEYCODE_HOME = 36"
definition KEYCODE_END :: nat where "KEYCODE_END = 35"

text \<open>
  \<open>_onKeyDown\<close>. A key press with Alt held, or any key that is not a navigation key, is
  left alone. Otherwise the default action is prevented, the new option is selected and
  an \<open>input\<close> event is dispatched; an exception from the selection leaves the handler
  before the dispatch.
\<close>

definition onKeyDown ::
  "key_event \<Rightarrow> dash_listbox \<Rightarrow> (dash_listbox \<times> key_event) \<times> js_error option" where
  "onKeyDown event lb =
     (if altKey event then ((lb, event), None)
      else
        (case (if keyCode event = KEYCODE_UP \<or> keyCode event = KEYCODE_LEFT then Some (prevOption lb)
               else if keyCode event = KEYCODE_DOWN \<or> keyCode event = KEYCODE_RIGHT then Some (nextOption lb)
               else if keyCode event = KEYCODE_HOME then Some (firstOption lb)
               else if keyCode event = KEYCODE_END then Some (lastOption lb)
               else None) of
           None \<Rightarrow> ((lb, event), None)
         | Some newOption \<Rightarrow>
             (let event1 = event\<lparr>defaultPrevented := True\<rparr> in
              case selectOption newOption lb of
                (lb1, Some err) \<Rightarrow> ((lb1, event1), Some err)
              | (lb1, None) \<Rightarrow> ((dispatch_input lb1, event1), None))))"

section \<open>Observations of a listbox\<close>

text \<open>The positions of the options whose \<open>selected\<close> property reads true.\<close>

definition selected_positions :: "dash_listbox \<Rightarrow> nat list" where
  "selected_positions lb =
     filter (\<lambda>i. get_selected (allOptions lb ! i)) [0 ..< length (allOptions lb)]"

definition at_most_one_selected :: "dash_listbox \<Rightarrow> bool" where
  "at_most_one_selected lb = (length (selected_positions lb) \<le> 1)"

text \<open>Selecting what \<open>_nextOption\<close> or \<open>_prevOption\<close> returns, as the arrow keys do.\<close>

definition select_next :: "dash_listbox \<Rightarrow> dash_listbox" where
  "select_next lb = fst (selectOption (nextOption lb) lb)"

definition select_prev :: "dash_listbox \<Rightarrow> dash_listbox" where
  "select_prev lb = fst (selectOption (prevOption lb) lb)"

text \<open>
  A sequence of operations on one listbox. Each is a call of its own: one that throws
  leaves its state behind and the next call runs on that state.
\<close>

datatype listbox_op = SelectOption "nat option" | Reset | SetValue jsval

fun apply_op :: "(string \<Rightarrow> jsnum) \<Rightarrow> dash_listbox \<Rightarrow> listbox_op \<Rightarrow> dash_listbox" where
  "apply_op tn lb (SelectOption newOption) = fst (selectOption newOption lb)"
| "apply_op tn lb Reset = reset lb"
| "apply_op tn lb (SetValue val) = fst (set_value tn val lb)"

definition run_ops :: "(string \<Rightarrow> jsnum) \<Rightarrow> listbox_op list \<Rightarrow> dash_listbox \<Rightarrow> dash_listbox" where
  "run_ops tn ops lb = foldl (apply_op tn) lb ops"

section \<open>The checkbox element\<close>

text \<open>
  A \<open>dash-checkbox\<close> element: the attributes the code reads and writes, the instance
  property \<open>_disabled\<close> that the \<open>disabled\<close> getter returns, whether the element is
  \<open>document.activeElement\<close>, and the \<open>detail.checked\<close> of each \<open>change\<close> event
  dispatched so far.
\<close>

record dash_checkbox =
  checked_attr :: "string option"
  disabled_attr :: "string option"
  tabindex_attr :: "string option"
  aria_checked :: "string option"
  aria_disabled :: "string option"
  disabled_field :: jsval
  focused :: bool
  change_events :: "bool list"

text \<open>
  An element as \<open>document.createElement('dash-checkbox')\<close> gives it: no attribute, and
  \<open>_disabled\<close> undefined, as no code of the class assigns it.
\<close>

definition new_checkbox :: dash_checkbox where
  "new_checkbox =
     \<lparr>checked_attr = None, disabled_attr = None, tabindex_attr = None, aria_checked = None,
      aria_disabled = None, disabled_field = JUndefined, focused = False, change_events = []\<rparr>"

text \<open>\<open>blur()\<close> takes the focus away from the element.\<close>

definition blur :: "dash_checkbox \<Rightarrow> dash_checkbox" where
  "blur c = c\<lparr>focused := False\<rparr>"

text \<open>
  The \<open>checked\<close> setter and getter. \<open>attributeChangedCallback\<close> runs when the attribute
  is set and when a present attribute is removed, and writes \<open>aria-checked\<close>.
\<close>

definition set_checked :: "jsval \<Rightarrow> dash_checkbox \<Rightarrow> dash_checkbox" where
  "set_checked v c =
     (if Boolean v then c\<lparr>checked_attr := Some [], aria_checked := Some ''true''\<rparr>
      else if checked_attr c = None then c
      else c\<lparr>checked_attr := None, aria_checked := Some ''false''\<rparr>)"

definition get_checked :: "dash_checkbox \<Rightarrow> bool" where
  "get_checked c = (checked_attr c \<noteq> None)"

text \<open>
  The \<open>disabled\<close> case of \<open>attributeChangedCallback\<close>, with the new value of the
  attribute (\<open>None\<close> for null).
\<close>

definition disabled_changed :: "string option \<Rightarrow> dash_checkbox \<Rightarrow> dash_checkbox" where
  "disabled_changed newValue c =
     (let isDisabled = (newValue \<noteq> None);
          c1 = c\<lparr>aria_disabled := Some (if isDisabled then ''true'' else ''false'')\<rparr>
      in if isDisabled then
           (let c2 = c1\<lparr>tabindex_attr := None\<rparr> in if focused c2 then blur c2 else c2)
         else c1\<lparr>tabindex_attr := Some ''0''\<rparr>)"

text \<open>The \<open>disabled\<close> setter, and the getter, which returns \<open>this._disabled\<close>.\<close>

definition set_disabled :: "jsval \<Rightarrow> dash_checkbox \<Rightarrow> dash_checkbox" where
  "set_disabled v c =
     (let isDisabled = Boolean v;
          c1 = (if isDisabled then disabled_changed (Some []) (c\<lparr>disabled_attr := Some []\<rparr>)
                else if disabled_attr c = None then c
                else disabled_changed None (c\<lparr>disabled_attr := None\<rparr>))
      in if isDisabled then
           (let c2 = c1\<lparr>tabindex_attr := None\<rparr> in if focused c2 then blur c2 else c2)
         else c1\<lparr>tabindex_attr := Some ''0''\<rparr>)"

definition get_disabled :: "dash_checkbox \<Rightarrow> jsval" where
  "get_disabled c = disabled_field c"

text \<open>
  \<open>_toggleChecked\<close>: returns at once when \<open>this.disabled\<close> is truthy; otherwise flips
  \<open>checked\<close> and dispatches a \<open>change\<close> event carrying the new state.
\<close>

definition toggleChecked :: "dash_checkbox \<Rightarrow> dash_checkbox" where
  "toggleChecked c =
     (if Boolean (get_disabled c) then c
      else (let c1 = set_checked (JBool (\<not> get_checked c)) c
            in c1\<lparr>change_events := change_events c1 @ [get_checked c1]\<rparr>))"

definition KEYCODE_SPACE :: nat where "KEYCODE_SPACE = 32"

text \<open>The click handler and the key handler of the checkbox.\<close>

definition checkbox_onClick :: "dash_checkbox \<Rightarrow> dash_checkbox" where
  "checkbox_onClick c = toggleChecked c"

definition checkbox_onKeyDown :: "key_event \<Rightarrow> dash_checkbox \<Rightarrow> dash_checkbox \<times> key_event" where
  "checkbox_onKeyDown event c =
     (if altKey event then (c, event)
      else if keyCode event = KEYCODE_SPACE then
        (toggleChecked c, event\<lparr>defaultPrevented := True\<rparr>)
      else (c, event))"

section \<open>Concrete elements for evaluation\<close>

definition plain_option :: "string \<Rightarrow> string option \<Rightarrow> dash_option" where
  "plain_option ident v =
     \<lparr>opt_id = ident, value_attr = v, selected_attr = None, aria_selected = None\<rparr>"

definition listbox_of :: "dash_option list \<Rightarrow> dash_listbox" where
  "listbox_of els = \<lparr>option_elements = els, aria_activedescendant = None, input_events = []\<rparr>"

definition listbox_ab :: dash_listbox where
  "listbox_ab = listbox_of [plain_option ''o1'' (Some ''a''), plain_option ''o2'' (Some ''b'')]"

definition listbox_abc :: dash_listbox where
  "listbox_abc =
     listbox_of [plain_option ''o1'' (Some ''a''), plain_option ''o2'' (Some ''b''),
                 plain_option ''o3'' (Some ''c'')]"

definition listbox_12 :: dash_listbox where
  "listbox_12 = listbox_of [plain_option ''o1'' (Some ''1''), plain_option ''o2'' (Some ''2'')]"

definition listbox_b_selected :: dash_listbox where
  "listbox_b_selected =
     listbox_of [plain_option ''o1'' (Some ''a''),
                 set_selected (JBool True) (plain_option ''o2'' (Some ''b'')),
                 plain_option ''o3'' (Some ''c'')]"

definition listbox_blank_selected :: dash_listbox where
  "listbox_blank_selected = listbox_of [set_selected (JBool True) (plain_option ''o1'' (Some []))]"

definition listbox_novalue_selected :: dash_listbox where
  "listbox_novalue_selected = listbox_of [set_selected (JBool True) (plain_option ''o1'' None)]"

definition key_press :: "nat \<Rightarrow> key_event" where
  "key_press code = \<lparr>altKey = False, keyCode = code, defaultPrevented = False\<rparr>"

section \<open>Facts about the helpers\<close>

lemma find_pos_None_iff: "find_pos P xs = None \<longleftrightarrow> (\<forall>x\<in>set xs. \<not> P x)"
  by (induction xs) (auto split: option.splits)

lemma find_pos_Some_iff:
  "find_pos P xs = Some i \<longleftrightarrow> i < length xs \<and> P (xs ! i) \<and> (\<forall>j<i. \<not> P (xs ! j))"
proof (induction xs arbitrary: i)
  case Nil
  then show ?case by simp
next
  case (Cons x xs)
  show ?case
  proof (cases "P x")
    case True
    then show ?thesis by (cases i) auto
  next
    case False
    show ?thesis
    proof (cases i)
      case 0
      with False show ?thesis by (auto split: option.splits)
    next
      case (Suc k)
      have "(\<forall>j<Suc k. \<not> P ((x # xs) ! j)) \<longleftrightarrow> (\<forall>j<k. \<not> P (xs ! j))"
        using False by (auto simp: less_Suc_eq_0_disj)
      with False Suc Cons.IH [of k] show ?thesis
        by (auto split: option.splits)
    qed
  qed
qed

lemma distinct_set_single: "distinct xs \<Longrightarrow> set xs = {a} \<Longrightarrow> xs = [a]"
proof -
  assume d: "distinct xs" and s: "set xs = {a}"
  from d have "length xs = card (set xs)" by (simp add: distinct_card)
  with s have "length xs = 1" by simp
  then obtain x where "xs = [x]" by (cases xs) auto
  with s show ?thesis by simp
qed

lemma filter_upt_single_iff:
  "filter Q [0 ..< n] = [i] \<longleftrightarrow> i < n \<and> (\<forall>j<n. Q j \<longleftrightarrow> j = i)"
proof
  assume h: "filter Q [0 ..< n] = [i]"
  then have "set (filter Q [0 ..< n]) = {i}" by simp
  then have "{j. j < n \<and> Q j} = {i}" by (simp add: conj_commute)
  then show "i < n \<and> (\<forall>j<n. Q j \<longleftrightarrow> j = i)" by blast
next
  assume h: "i < n \<and> (\<forall>j<n. Q j \<longleftrightarrow> j = i)"
  then have "set (filter Q [0 ..< n]) = {i}" by auto
  moreover have "distinct (filter Q [0 ..< n])" by simp
  ultimately show "filter Q [0 ..< n] = [i]" by (rule distinct_set_single[rotated])
qed

lemma filter_upt_empty_iff: "filter Q [0 ..< n] = [] \<longleftrightarrow> (\<forall>j<n. \<not> Q j)"
  by (auto simp: filter_empty_conv)

lemma selected_positions_single_iff:
  "selected_positions lb = [i] \<longleftrightarrow>
     i < length (allOptions lb) \<and> (\<forall>j<length (allOptions lb). get_selected (allOptions lb ! j) \<longleftrightarrow> j = i)"
  unfolding selected_positions_def by (rule filter_upt_single_iff)

lemma selected_positions_empty_iff:
  "selected_positions lb = [] \<longleftrightarrow> (\<forall>j<length (allOptions lb). \<not> get_selected (allOptions lb ! j))"
  unfolding selected_positions_def by (rule filter_upt_empty_iff)

lemma get_selected_set_selected [simp]: "get_selected (set_selected v el) = Boolean v"
  by (simp add: get_selected_def set_selected_def)

lemma get_value_set_selected [simp]: "get_value (set_selected v el) = get_value el"
  by (simp add: get_value_def set_selected_def)

lemma length_allOptions_reset [simp]: "length (allOptions (reset lb)) = length (allOptions lb)"
  by (simp add: reset_def allOptions_def)

lemma nth_allOptions_reset:
  "j < length (allOptions lb) \<Longrightarrow> allOptions (reset lb) ! j = set_selected (JBool False) (allOptions lb ! j)"
  by (simp add: reset_def allOptions_def)

lemma selected_positions_reset [simp]: "selected_positions (reset lb) = []"
  by (simp add: selected_positions_empty_iff nth_allOptions_reset)

lemma selectOption_in_range:
  assumes "i < length (allOptions lb)"
  shows "snd (selectOption (Some i) lb) = None"
    and "length (allOptions (fst (selectOption (Some i) lb))) = length (allOptions lb)"
    and "selected_positions (fst (selectOption (Some i) lb)) = [i]"
    and "get_value (allOptions (fst (selectOption (Some i) lb)) ! i) = get_value (allOptions lb ! i)"
proof -
  let ?lb1 = "reset lb"
  let ?el = "set_selected (JBool True) (allOptions ?lb1 ! i)"
  let ?r = "?lb1\<lparr>option_elements := (allOptions ?lb1)[i := ?el], aria_activedescendant := Some (opt_id ?el)\<rparr>"
  from assms have r: "selectOption (Some i) lb = (?r, None)"
    by (simp add: selectOption_def Let_def)
  have opts: "allOptions ?r = (allOptions ?lb1)[i := ?el]" by (simp add: allOptions_def)
  show "snd (selectOption (Some i) lb) = None" using r by simp
  show len: "length (allOptions (fst (selectOption (Some i) lb))) = length (allOptions lb)"
    using r opts by simp
  show "selected_positions (fst (selectOption (Some i) lb)) = [i]"
    unfolding selected_positions_single_iff len
    using assms r opts by (auto simp: nth_list_update nth_allOptions_reset)
  show "get_value (allOptions (fst (selectOption (Some i) lb)) ! i) = get_value (allOptions lb ! i)"
    using assms r opts by (simp add: nth_allOptions_reset)
qed

lemma selectOption_absent:
  assumes "newOption = None \<or> (\<exists>i. newOption = Some i \<and> length (allOptions lb) \<le> i)"
  shows "selectOption newOption lb = (reset lb, Some TypeError)"
  using assms by (auto simp: selectOption_def Let_def)

lemma selectOption_at_most_one: "at_most_one_selected (fst (selectOption newOption lb))"
proof (cases "\<exists>i. newOption = Some i \<and> i < length (allOptions lb)")
  case True
  then show ?thesis by (auto simp: at_most_one_selected_def selectOption_in_range(3))
next
  case False
  then have "newOption = None \<or> (\<exists>i. newOption = Some i \<and> length (allOptions lb) \<le> i)"
    by (cases newOption) auto
  then show ?thesis by (simp add: selectOption_absent at_most_one_selected_def)
qed

lemma apply_op_at_most_one: "at_most_one_selected (apply_op tn lb op)"
proof (cases op)
  case (SelectOption t)
  then show ?thesis by (simp add: selectOption_at_most_one)
next
  case Reset
  then show ?thesis by (simp add: at_most_one_selected_def)
next
  case (SetValue v)
  show ?thesis
  proof (cases "find_pos (\<lambda>el. loose_eq tn (get_value el) v) (allOptions lb)")
    case None
    with SetValue show ?thesis by (simp add: set_value_def at_most_one_selected_def)
  next
    case (Some i)
    with SetValue show ?thesis by (simp add: set_value_def selectOption_at_most_one)
  qed
qed

lemma js_rem_nonneg: "0 \<le> a \<Longrightarrow> 0 < b \<Longrightarrow> js_rem a b = Some (a mod b)"
  by (cases "a = 0") (simp_all add: js_rem_def)

lemma js_rem_nat: "0 < n \<Longrightarrow> js_rem (int k) (int n) = Some (int (k mod n))"
  by (simp add: js_rem_nonneg zmod_int)

lemma at_index_nat: "k < length xs \<Longrightarrow> at_index xs (Some (int k)) = Some k"
  by (simp add: at_index_def)

lemma findIndex_single:
  assumes "selected_positions lb = [i]"
  shows "findIndex get_selected (allOptions lb) = int i"
proof -
  from assms have "i < length (allOptions lb)"
    and "\<forall>j<length (allOptions lb). get_selected (allOptions lb ! j) \<longleftrightarrow> j = i"
    by (simp_all add: selected_positions_single_iff)
  then have "find_pos get_selected (allOptions lb) = Some i"
    by (simp add: find_pos_Some_iff)
  then show ?thesis by (simp add: findIndex_def)
qed

lemma findIndex_none:
  assumes "selected_positions lb = []"
  shows "findIndex get_selected (allOptions lb) = - 1"
proof -
  from assms have "\<forall>x\<in>set (allOptions lb). \<not> get_selected x"
    by (auto simp: selected_positions_empty_iff in_set_conv_nth)
  then have "find_pos get_selected (allOptions lb) = None"
    by (simp add: find_pos_None_iff)
  then show ?thesis by (simp add: findIndex_def)
qed

lemma nextOption_single:
  assumes "selected_positions lb = [i]"
  shows "nextOption lb = Some (Suc i mod length (allOptions lb))"
proof -
  let ?n = "length (allOptions lb)"
  from assms have n: "0 < ?n" by (auto simp: selected_positions_single_iff)
  have "js_rem (int i + 1) (int ?n) = Some (int (Suc i mod ?n))"
    using n by (simp add: js_rem_nonneg zmod_int add.commute)
  moreover have "Suc i mod ?n < ?n" using n by simp
  ultimately show ?thesis
    using findIndex_single [OF assms] by (simp add: nextOption_def Let_def at_index_nat)
qed

lemma prevOption_single:
  assumes "selected_positions lb = [i]"
  shows "prevOption lb = Some ((i + length (allOptions lb) - 1) mod length (allOptions lb))"
proof -
  let ?n = "length (allOptions lb)"
  from assms have n: "0 < ?n" by (auto simp: selected_positions_single_iff)
  have "int i - 1 + int ?n = int (i + ?n - 1)" using n by linarith
  moreover have "js_rem (int (i + ?n - 1)) (int ?n) = Some (int ((i + ?n - 1) mod ?n))"
    using n by (rule js_rem_nat)
  ultimately have "js_rem (int i - 1 + int ?n) (int ?n) = Some (int ((i + ?n - 1) mod ?n))"
    by (simp only:)
  moreover have "(i + ?n - 1) mod ?n < ?n" using n by simp
  ultimately show ?thesis
    using findIndex_single [OF assms] by (simp add: prevOption_def Let_def at_index_nat)
qed

lemma nextOption_none:
  assumes "selected_positions lb = []" and "0 < length (allOptions lb)"
  shows "nextOption lb = Some 0"
  using assms findIndex_none [OF assms(1)]
  by (simp add: nextOption_def Let_def js_rem_def at_index_def)

lemma prevOption_none:
  assumes "selected_positions lb = []" and "2 \<le> length (allOptions lb)"
  shows "prevOption lb = Some (length (allOptions lb) - 2)"
proof -
  let ?n = "length (allOptions lb)"
  have n: "0 < ?n" using assms(2) by linarith
  have "- 1 - 1 + int ?n = int (?n - 2)" using assms(2) by linarith
  moreover have "js_rem (int (?n - 2)) (int ?n) = Some (int ((?n - 2) mod ?n))"
    using n by (rule js_rem_nat)
  moreover have "(?n - 2) mod ?n = ?n - 2" using assms(2) by simp
  ultimately have "js_rem (- 1 - 1 + int ?n) (int ?n) = Some (int (?n - 2))"
    by (simp only:)
  moreover have "?n - 2 < ?n" using assms(2) by simp
  ultimately show ?thesis
    using findIndex_none [OF assms(1)] by (simp only: prevOption_def Let_def at_index_nat)
qed

lemma select_next_single:
  assumes "selected_positions lb = [i]"
  shows "selected_positions (select_next lb) = [Suc i mod length (allOptions lb)]"
    and "length (allOptions (select_next lb)) = length (allOptions lb)"
proof -
  from assms have n: "0 < length (allOptions lb)" by (auto simp: selected_positions_single_iff)
  then have lt: "Suc i mod length (allOptions lb) < length (allOptions lb)" by simp
  show "selected_positions (select_next lb) = [Suc i mod length (allOptions lb)]"
    using selectOption_in_range(3) [OF lt] by (simp add: select_next_def nextOption_single [OF assms])
  show "length (allOptions (select_next lb)) = length (allOptions lb)"
    using selectOption_in_range(2) [OF lt] by (simp add: select_next_def nextOption_single [OF assms])
qed

lemma select_prev_single:
  assumes "selected_positions lb = [i]"
  shows "selected_positions (select_prev lb) = [(i + length (allOptions lb) - 1) mod length (allOptions lb)]"
    and "length (allOptions (select_prev lb)) = length (allOptions lb)"
proof -
  from assms have n: "0 < length (allOptions lb)" by (auto simp: selected_positions_single_iff)
  then have lt: "(i + length (allOptions lb) - 1) mod length (allOptions lb) < length (allOptions lb)" by simp
  show "selected_positions (select_prev lb) = [(i + length (allOptions lb) - 1) mod length (allOptions lb)]"
    using selectOption_in_range(3) [OF lt] by (simp add: select_prev_def prevOption_single [OF assms])
  show "length (allOptions (select_prev lb)) = length (allOptions lb)"
    using selectOption_in_range(2) [OF lt] by (simp add: select_prev_def prevOption_single [OF assms])
qed

lemma select_next_funpow:
  assumes "selected_positions lb = [i]"
  shows "selected_positions ((select_next ^^ k) lb) = [(i + k) mod length (allOptions lb)] \<and>
         length (allOptions ((select_next ^^ k) lb)) = length (allOptions lb)"
proof (induction k)
  case 0
  from assms have "i < length (allOptions lb)" by (simp add: selected_positions_single_iff)
  with assms show ?case by simp
next
  case (Suc k)
  let ?n = "length (allOptions lb)"
  let ?s = "(select_next ^^ k) lb"
  from Suc.IH have sel: "selected_positions ?s = [(i + k) mod ?n]"
    and len: "length (allOptions ?s) = ?n" by simp_all
  have "selected_positions (select_next ?s) = [Suc ((i + k) mod ?n) mod ?n]"
    using select_next_single(1) [OF sel] len by simp
  moreover have "Suc ((i + k) mod ?n) mod ?n = (i + Suc k) mod ?n"
    by (simp add: mod_Suc_eq)
  moreover have "length (allOptions (select_next ?s)) = ?n"
    using select_next_single(2) [OF sel] len by simp
  ultimately show ?case by simp
qed

lemma pred_succ_mod: "i < n \<Longrightarrow> (Suc i mod n + n - 1) mod n = i"
  by (cases "Suc i = n") (auto simp: mod_if)

lemma succ_pred_mod: "i < n \<Longrightarrow> Suc ((i + n - 1) mod n) mod n = (i::nat)"
  by (cases i) (auto simp: mod_if)

lemma selectedOption_single: "selected_positions lb = [i] \<Longrightarrow> selectedOption lb = Some i"
  by (simp add: selectedOption_def selected_positions_single_iff find_pos_Some_iff)

lemma selectedOption_none: "selected_positions lb = [] \<Longrightarrow> selectedOption lb = None"
  by (auto simp: selectedOption_def selected_positions_empty_iff find_pos_None_iff in_set_conv_nth)

lemma set_checked_reflects:
  "(checked_attr (set_checked v c) \<noteq> None) = Boolean v \<and> get_checked (set_checked v c) = Boolean v"
  by (simp add: set_checked_def get_checked_def)

lemma set_selected_reflects:
  "(selected_attr (set_selected v el) \<noteq> None) = Boolean v \<and> get_selected (set_selected v el) = Boolean v"
  by (simp add: set_selected_def get_selected_def)

lemma set_disabled_attr: "(disabled_attr (set_disabled v c) \<noteq> None) = Boolean v"
  by (simp add: set_disabled_def disabled_changed_def blur_def Let_def)

lemma get_disabled_set_disabled: "get_disabled (set_disabled v c) = get_disabled c"
  by (simp add: set_disabled_def disabled_changed_def blur_def get_disabled_def Let_def)

lemmas example_defs = plain_option_def listbox_of_def listbox_ab_def listbox_abc_def key_press_def
  listbox_12_def listbox_b_selected_def listbox_blank_selected_def listbox_novalue_selected_def

lemmas eval_defs = example_defs allOptions_def selected_positions_def get_selected_def set_selected_def
  selectedOption_def get_lb_value_def get_value_def reset_def selectOption_def select_next_def
  select_prev_def nextOption_def prevOption_def findIndex_def js_rem_def at_index_def set_value_def
  digits_to_number_def digit_value_def num_eq_def bool_to_number_def Let_def upt_rec

section \<open>The checkbox\<close>

text \<open>
  C1. A checkbox whose \<open>disabled\<close> property was set to true should ignore a click and a
  press of the space key. The guard of \<open>_toggleChecked\<close> reads \<open>this.disabled\<close>, whose
  getter returns the never-assigned \<open>_disabled\<close>; on a new checkbox that has been
  disabled, a click and a space-key press both check it, and the click dispatches a
  \<open>change\<close> event.
\<close>

theorem disabled_checkbox_still_toggles:
  "disabled_attr (set_disabled (JBool True) new_checkbox) = Some [] \<and>
   get_checked (set_disabled (JBool True) new_checkbox) = False \<and>
   get_checked (checkbox_onClick (set_disabled (JBool True) new_checkbox)) = True \<and>
   change_events (checkbox_onClick (set_disabled (JBool True) new_checkbox)) = [True] \<and>
   get_checked (fst (checkbox_onKeyDown (key_press KEYCODE_SPACE) (set_disabled (JBool True) new_checkbox))) = True"
  by (simp add: checkbox_onClick_def checkbox_onKeyDown_def toggleChecked_def set_disabled_def
      new_checkbox_def get_disabled_def disabled_changed_def set_checked_def get_checked_def
      key_press_def blur_def Let_def)

text \<open>
  C2. Setting a boolean property to \<open>v\<close> should make the attribute present exactly when
  \<open>Boolean(v)\<close>, and reading the property back should give \<open>Boolean(v)\<close>. This holds
  for \<open>checked\<close> and \<open>selected\<close> (\<open>set_checked_reflects\<close>,
  \<open>set_selected_reflects\<close>) and for the attribute of \<open>disabled\<close>, but the
  \<open>disabled\<close> getter is untouched by its setter: after \<open>disabled = true\<close> on a new
  checkbox the attribute is present and the property reads undefined.
\<close>

theorem disabled_getter_not_reflected:
  "disabled_attr (set_disabled (JBool True) new_checkbox) = Some [] \<and>
   get_disabled (set_disabled (JBool True) new_checkbox) = JUndefined"
  by (simp add: set_disabled_def new_checkbox_def get_disabled_def disabled_changed_def blur_def Let_def)

section \<open>Navigation in the listbox\<close>

text \<open>
  C3. With no option selected, \<open>_nextOption\<close> returns the first option, and
  \<open>_prevOption\<close> should return the last one. \<open>findIndex\<close> gives \<open>-1\<close>, so the
  previous index is \<open>-2\<close>: with three options \<open>_prevOption\<close> returns the option at
  position 1, not the last one at position 2.
\<close>

theorem prevOption_without_selection:
  "length (allOptions listbox_abc) = 3 \<and> selected_positions listbox_abc = [] \<and>
   nextOption listbox_abc = Some 0 \<and> prevOption listbox_abc = Some 1"
  by (simp add: example_defs allOptions_def selected_positions_def get_selected_def nextOption_def
      prevOption_def findIndex_def js_rem_def at_index_def upt_rec)

text \<open>
  C8. In a listbox without options, \<open>_prevOption\<close>, \<open>_nextOption\<close>, \<open>_firstOption\<close>
  and \<open>_lastOption\<close> return undefined, and a press of a navigation key without Alt
  throws a TypeError in the selection step, before any \<open>input\<close> event is dispatched.
\<close>

theorem empty_listbox_navigation:
  "allOptions lb = [] \<Longrightarrow>
     prevOption lb = None \<and> nextOption lb = None \<and> firstOption lb = None \<and> lastOption lb = None \<and>
     (\<not> altKey e \<and> keyCode e \<in> {KEYCODE_UP, KEYCODE_LEFT, KEYCODE_DOWN, KEYCODE_RIGHT, KEYCODE_HOME, KEYCODE_END}
        \<longrightarrow> snd (onKeyDown e lb) = Some TypeError \<and> input_events (fst (fst (onKeyDown e lb))) = input_events lb)"
proof -
  assume e: "allOptions lb = []"
  have nav: "prevOption lb = None" "nextOption lb = None" "firstOption lb = None" "lastOption lb = None"
    using e by (simp_all add: prevOption_def nextOption_def firstOption_def lastOption_def
        js_rem_def at_index_def Let_def)
  have sel: "selectOption None lb = (reset lb, Some TypeError)"
    by (simp add: selectOption_def Let_def)
  have ev: "input_events (reset lb) = input_events lb" by (simp add: reset_def)
  show ?thesis using nav sel ev
    by (auto simp: onKeyDown_def Let_def)
qed

theorem empty_listbox_navigation_witness:
  "allOptions (listbox_of []) = [] \<and> prevOption (listbox_of []) = None \<and> nextOption (listbox_of []) = None \<and>
   firstOption (listbox_of []) = None \<and> lastOption (listbox_of []) = None \<and>
   \<not> altKey (key_press KEYCODE_UP) \<and>
   snd (onKeyDown (key_press KEYCODE_UP) (listbox_of [])) = Some TypeError"
  using empty_listbox_navigation [of "listbox_of []" "key_press KEYCODE_UP"]
  by (simp add: allOptions_def listbox_of_def key_press_def)

text \<open>
  C9. In a listbox without options the focus handler throws a TypeError: neither a
  selected nor a first option exists, and the read of its \<open>id\<close> fails before any
  attribute is written or event dispatched.
\<close>

theorem empty_listbox_focus_faults:
  "allOptions lb = [] \<Longrightarrow> onFocus lb = (lb, Some TypeError)"
  by (simp add: onFocus_def selectedOption_def firstOption_def at_index_def Let_def)

theorem empty_listbox_focus_faults_witness:
  "allOptions (listbox_of []) = [] \<and> onFocus (listbox_of []) = (listbox_of [], Some TypeError)"
  using empty_listbox_focus_faults [of "listbox_of []"]
  by (simp add: allOptions_def listbox_of_def)

section \<open>The selection invariant\<close>

text \<open>
  C4. After any sequence of \<open>_selectOption\<close>, \<open>reset\<close> and \<open>value\<close>-setter calls at
  most one option is selected: after a non-empty sequence whatever the state before it,
  and after the empty sequence when the state before it had at most one.
\<close>

theorem at_most_one_selected_after_ops:
  "ops \<noteq> [] \<or> at_most_one_selected lb \<Longrightarrow> at_most_one_selected (run_ops tn ops lb)"
proof (cases ops rule: rev_cases)
  case Nil
  then show "ops \<noteq> [] \<or> at_most_one_selected lb \<Longrightarrow> ?thesis" by (simp add: run_ops_def)
next
  case (snoc ops' op)
  then show ?thesis by (simp add: run_ops_def apply_op_at_most_one)
qed

theorem at_most_one_selected_after_ops_witness:
  "[SetValue (JStr ''b''), SelectOption None, SelectOption (Some 0)] \<noteq> [] \<and>
   at_most_one_selected
     (run_ops digits_to_number [SetValue (JStr ''b''), SelectOption None, SelectOption (Some 0)]
        listbox_ab)"
  using at_most_one_selected_after_ops
    [of "[SetValue (JStr ''b''), SelectOption None, SelectOption (Some 0)]" listbox_ab digits_to_number]
  by simp

section \<open>Cycling through the options\<close>

text \<open>
  C6. In a listbox where exactly one option is selected, selecting what
  \<open>_nextOption\<close> returns as many times as there are options brings the selection back
  to the option it started from.
\<close>

theorem next_cycle_restores_selection:
  "selected_positions lb = [i] \<Longrightarrow>
     selected_positions ((select_next ^^ length (allOptions lb)) lb) = selected_positions lb"
proof -
  assume a: "selected_positions lb = [i]"
  then have "i < length (allOptions lb)" by (simp add: selected_positions_single_iff)
  then have "(i + length (allOptions lb)) mod length (allOptions lb) = i" by simp
  with select_next_funpow [OF a, of "length (allOptions lb)"] a show ?thesis by simp
qed

theorem next_cycle_restores_selection_witness:
  "selected_positions listbox_b_selected = [1] \<and>
   selected_positions ((select_next ^^ length (allOptions listbox_b_selected)) listbox_b_selected) = [1]"
proof -
  have h: "selected_positions listbox_b_selected = [1]"
    by (simp add: example_defs allOptions_def selected_positions_def get_selected_def
        set_selected_def upt_rec)
  from next_cycle_restores_selection [OF h] h show ?thesis by simp
qed

text \<open>
  Started with no option selected, the same steps do not return to the empty selection:
  with two options they end on the second one.
\<close>

theorem next_cycle_from_no_selection:
  "selected_positions listbox_ab = [] \<and>
   selected_positions ((select_next ^^ length (allOptions listbox_ab)) listbox_ab) = [1]"
  by (simp add: eval_defs numeral_2_eq_2)

text \<open>
  C7. In a listbox where exactly one option is selected, selecting the next
  option and then the previous one, or the previous and then the next, brings the
  selection back to the option it started from.
\<close>

theorem next_prev_restore_selection:
  "selected_positions lb = [i] \<Longrightarrow>
     selected_positions (select_prev (select_next lb)) = selected_positions lb \<and>
     selected_positions (select_next (select_prev lb)) = selected_positions lb"
proof -
  assume a: "selected_positions lb = [i]"
  let ?n = "length (allOptions lb)"
  from a have i: "i < ?n" by (simp add: selected_positions_single_iff)
  have "selected_positions (select_prev (select_next lb)) = [(Suc i mod ?n + ?n - 1) mod ?n]"
    using select_prev_single(1) [OF select_next_single(1) [OF a]] select_next_single(2) [OF a] by simp
  moreover have "selected_positions (select_next (select_prev lb)) = [Suc ((i + ?n - 1) mod ?n) mod ?n]"
    using select_next_single(1) [OF select_prev_single(1) [OF a]] select_prev_single(2) [OF a] by simp
  ultimately show ?thesis using a pred_succ_mod [OF i] succ_pred_mod [OF i] by simp
qed

theorem next_prev_restore_selection_witness:
  "selected_positions listbox_b_selected = [1] \<and>
   selected_positions (select_prev (select_next listbox_b_selected)) = [1] \<and>
   selected_positions (select_next (select_prev listbox_b_selected)) = [1]"
proof -
  have h: "selected_positions listbox_b_selected = [1]"
    by (simp add: example_defs allOptions_def selected_positions_def get_selected_def
        set_selected_def upt_rec)
  from next_prev_restore_selection [OF h] h show ?thesis by simp
qed

text \<open>
  Started with no option selected, next and then previous select the last option
  instead of restoring the empty selection.
\<close>

theorem next_prev_from_no_selection:
  "selected_positions listbox_abc = [] \<and>
   selected_positions (select_prev (select_next listbox_abc)) = [2]"
  by (simp add: eval_defs)

section \<open>The value of the listbox\<close>

text \<open>
  C10. When the selected option carries no \<open>value\<close> attribute, the \<open>value\<close>
  getter of the listbox returns null; it returns the empty string only when no option is
  selected or when the selected option's \<open>value\<close> attribute is the empty string.
\<close>

theorem value_of_selected_option:
  "(selectedOption lb = Some i \<and> value_attr (allOptions lb ! i) = None \<longrightarrow> get_lb_value lb = JNull) \<and>
   (get_lb_value lb = JStr [] \<longrightarrow>
      selectedOption lb = None \<or>
      (\<exists>i. selectedOption lb = Some i \<and> value_attr (allOptions lb ! i) = Some []))"
  by (auto simp: get_lb_value_def get_value_def split: option.splits)

theorem value_of_selected_option_witness:
  "selectedOption listbox_novalue_selected = Some 0 \<and>
   value_attr (allOptions listbox_novalue_selected ! 0) = None \<and>
   get_lb_value listbox_novalue_selected = JNull \<and>
   get_lb_value listbox_ab = JStr [] \<and> selectedOption listbox_ab = None"
  using value_of_selected_option [of listbox_novalue_selected 0]
    value_of_selected_option [of listbox_ab 0]
  by (simp add: eval_defs)

text \<open>
  The empty string is also the result when an option is selected and its \<open>value\<close>
  attribute is empty.
\<close>

theorem blank_value_of_selected_option:
  "selectedOption listbox_blank_selected = Some 0 \<and> get_lb_value listbox_blank_selected = JStr []"
  by (simp add: eval_defs)

text \<open>
  C5. When some option's value loosely equals \<open>v\<close>, setting the listbox's
  \<open>value\<close> to \<open>v\<close> selects the first such option and no other, and the getter
  then returns that option's value, which loosely equals \<open>v\<close>. When none does, no
  option is selected afterwards and the getter returns the empty string.
\<close>

theorem set_value_then_get_value:
  "((\<exists>el\<in>set (allOptions lb). loose_eq tn (get_value el) v) \<longrightarrow>
      (\<exists>i. find_pos (\<lambda>el. loose_eq tn (get_value el) v) (allOptions lb) = Some i \<and>
           get_lb_value (fst (set_value tn v lb)) = get_value (allOptions lb ! i) \<and>
           selected_positions (fst (set_value tn v lb)) = [i]) \<and>
      loose_eq tn (get_lb_value (fst (set_value tn v lb))) v) \<and>
   (\<not> (\<exists>el\<in>set (allOptions lb). loose_eq tn (get_value el) v) \<longrightarrow>
      get_lb_value (fst (set_value tn v lb)) = JStr [] \<and>
      selected_positions (fst (set_value tn v lb)) = [])"
proof (cases "find_pos (\<lambda>el. loose_eq tn (get_value el) v) (allOptions lb)")
  case None
  then have no: "\<not> (\<exists>el\<in>set (allOptions lb). loose_eq tn (get_value el) v)"
    by (simp add: find_pos_None_iff)
  from None have r: "fst (set_value tn v lb) = reset lb" by (simp add: set_value_def)
  have "get_lb_value (reset lb) = JStr []"
    by (simp add: get_lb_value_def selectedOption_none)
  with no r show ?thesis by simp
next
  case (Some i)
  then have i: "i < length (allOptions lb)" and m: "loose_eq tn (get_value (allOptions lb ! i)) v"
    by (simp_all add: find_pos_Some_iff)
  from Some have r: "fst (set_value tn v lb) = fst (selectOption (Some i) lb)"
    by (simp add: set_value_def)
  have sel: "selected_positions (fst (set_value tn v lb)) = [i]"
    using selectOption_in_range(3) [OF i] r by simp
  have "get_lb_value (fst (set_value tn v lb)) = get_value (allOptions (fst (selectOption (Some i) lb)) ! i)"
    using selectedOption_single [OF sel] r by (simp add: get_lb_value_def)
  then have val: "get_lb_value (fst (set_value tn v lb)) = get_value (allOptions lb ! i)"
    using selectOption_in_range(4) [OF i] by simp
  have ex: "\<exists>el\<in>set (allOptions lb). loose_eq tn (get_value el) v"
    using i m nth_mem by blast
  from Some sel val m ex show ?thesis by simp
qed

theorem set_value_then_get_value_witness:
  "(\<exists>el\<in>set (allOptions listbox_12). loose_eq digits_to_number (get_value el) (JNum (Fin 2))) \<and>
   get_lb_value (fst (set_value digits_to_number (JNum (Fin 2)) listbox_12)) = JStr ''2'' \<and>
   selected_positions (fst (set_value digits_to_number (JNum (Fin 2)) listbox_12)) = [1] \<and>
   \<not> (\<exists>el\<in>set (allOptions listbox_12). loose_eq digits_to_number (get_value el) (JStr ''zz'')) \<and>
   get_lb_value (fst (set_value digits_to_number (JStr ''zz'') listbox_12)) = JStr [] \<and>
   selected_positions (fst (set_value digits_to_number (JStr ''zz'') listbox_12)) = []"
  using set_value_then_get_value [of listbox_12 digits_to_number "JNum (Fin 2)"]
    set_value_then_get_value [of listbox_12 digits_to_number "JStr ''zz''"]
  by (simp add: eval_defs)

text \<open>
  The getter returning \<open>v\<close> does not show that an option matched: with options
  \<open>a\<close> and \<open>b\<close>, setting the empty string selects nothing, and the getter returns the
  empty string.
\<close>

theorem set_value_blank_without_match:
  "get_lb_value (fst (set_value digits_to_number (JStr []) listbox_ab)) = JStr [] \<and>
   \<not> (\<exists>el\<in>set (allOptions listbox_ab). loose_eq digits_to_number (get_value el) (JStr []))"
  by (simp add: eval_defs)

end
